theory Spec2Isabelle
  imports Complex_Main
begin

section \<open>The paper toy: data model\<close>

text \<open>
  The component class \<open>AppComponent\<close> and the service \<open>GestureService\<close> are embedded
  as records that are passed through every method and returned updated. In the component
  the frame counter is a natural number (it only counts up from 0 and is reset), and the
  proximity it is handed and the random values are real numbers. The gesture service
  computes with the numbers of the run time, whose arithmetic it takes as a parameter.
\<close>

datatype PaperState = IDLE | ACTIVE | CRUMPLED_1 | CRUMPLED_2 | CRUMPLED_FINAL | BURNING | ASHES

datatype GestureType = NONE | FIST | OPEN_PALM

text \<open>
  The interface \<open>Spark\<close>. Its fields carry the prefix \<open>spark_\<close> (the source has \<open>x\<close>,
  \<open>y\<close>, \<open>tx\<close>, ...); \<open>delay\<close> and \<open>duration\<close> hold the number of seconds that the
  source prints in front of the letter s.
\<close>

record Spark =
  spark_x :: real
  spark_y :: real
  spark_tx :: real
  spark_ty :: real
  spark_scale :: real
  spark_delay :: real
  spark_duration :: real

text \<open>The two closures the component hands to \<open>setTimeout\<close>.\<close>

datatype callback =
    ShakeOff    \<comment> \<open>\<open>() => this.isShaking.set(false)\<close>\<close>
  | BurnDone    \<comment> \<open>\<open>() => { this.paperState.set('ASHES'); this.sparks.set([]); }\<close>\<close>

text \<open>
  What a method does besides updating the fields is kept in a log, in program order: the
  calls of \<open>triggerCrumple\<close> and \<open>burnPaper\<close>, every \<open>paperState.set\<close>, the calls to
  the audio service and the click on the file input.
\<close>

datatype call =
    TriggerCrumple
  | BurnPaper
  | SetPaperState PaperState
  | PlayCrumple
  | PlayBurn
  | StartMusic
  | StopMusic
  | AudioInit
  | FileInputClick

text \<open>
  The fields of \<open>AppComponent\<close>, followed by what the run time holds for it: the current
  time in milliseconds, the pending timers (due time and callback, in the order of their
  \<open>setTimeout\<close> calls), the number of \<open>Math.random()\<close> calls so far, and the log.
\<close>

record AppComponent =
  paperState :: PaperState
  fileName :: string
  fileType :: string
  isShaking :: bool
  sparks :: "Spark list"
  gestureHoldCounter :: nat
  canCrumple :: bool
  clock :: nat
  timers :: "(nat \<times> callback) list"
  randomCalls :: nat
  calls :: "call list"

record File =
  file_name :: string
  file_type :: string

text \<open>The field initialisers of the class: the component as constructed.\<close>

definition initial :: AppComponent where
  "initial =
     \<lparr> paperState = IDLE, fileName = [], fileType = [], isShaking = False, sparks = [],
       gestureHoldCounter = 0, canCrumple = True,
       clock = 0, timers = [], randomCalls = 0, calls = [] \<rparr>"

section \<open>The component's methods\<close>

definition log_call :: "call \<Rightarrow> AppComponent \<Rightarrow> AppComponent" where
  "log_call c s = s\<lparr>calls := calls s @ [c]\<rparr>"

text \<open>\<open>this.paperState.set(st)\<close>\<close>

definition set_paperState :: "PaperState \<Rightarrow> AppComponent \<Rightarrow> AppComponent" where
  "set_paperState st s = log_call (SetPaperState st) (s\<lparr>paperState := st\<rparr>)"

text \<open>\<open>setTimeout(cb, ms)\<close>: the callback becomes due \<open>ms\<close> milliseconds from now.\<close>

definition setTimeout :: "callback \<Rightarrow> nat \<Rightarrow> AppComponent \<Rightarrow> AppComponent" where
  "setTimeout cb ms s = s\<lparr>timers := timers s @ [(clock s + ms, cb)]\<rparr>"

definition triggerCrumple :: "AppComponent \<Rightarrow> AppComponent" where
  "triggerCrumple s0 =
     (let s = log_call TriggerCrumple s0;
          current = paperState s;
          (s1, changed) =
            (if current = ACTIVE then (set_paperState CRUMPLED_1 s, True)
             else if current = CRUMPLED_1 then (set_paperState CRUMPLED_2 s, True)
             else if current = CRUMPLED_2 then (set_paperState CRUMPLED_FINAL s, True)
             else (s, False))
      in if changed
         then setTimeout ShakeOff 400 ((log_call PlayCrumple s1)\<lparr>isShaking := True\<rparr>)
         else s1)"

text \<open>
  \<open>generateSparks\<close>: the loop \<open>for (let i = 0; i < 40; i++)\<close> pushes one spark per round.
  \<open>rnd k\<close> is the value of the \<open>k\<close>-th call of \<open>Math.random()\<close>; a round makes seven
  calls, in the order of the fields.
\<close>

definition new_spark :: "(nat \<Rightarrow> real) \<Rightarrow> nat \<Rightarrow> Spark" where
  "new_spark rnd k =
     \<lparr> spark_x = 50 + (rnd k * 40 - 20),
       spark_y = 60 + (rnd (k + 1) * 20 - 10),
       spark_tx = rnd (k + 2) * 200 - 100,
       spark_ty = - (rnd (k + 3) * 200 + 100),
       spark_scale = rnd (k + 4) * 1.5 + 0.5,
       spark_delay = rnd (k + 5) * 0.5,
       spark_duration = rnd (k + 6) * 1 + 0.5 \<rparr>"

function sparks_loop :: "(nat \<Rightarrow> real) \<Rightarrow> nat \<Rightarrow> nat \<Rightarrow> Spark list \<Rightarrow> Spark list" where
  "sparks_loop rnd k i newSparks =
     (if i < 40 then sparks_loop rnd (k + 7) (i + 1) (newSparks @ [new_spark rnd k])
      else newSparks)"
  by pat_completeness auto
termination
  by (relation "measure (\<lambda>(rnd, k, i, newSparks). 40 - i)") auto

definition generateSparks :: "(nat \<Rightarrow> real) \<Rightarrow> AppComponent \<Rightarrow> AppComponent" where
  "generateSparks rnd s =
     s\<lparr>sparks := sparks_loop rnd (randomCalls s) 0 [], randomCalls := randomCalls s + 280\<rparr>"

definition burnPaper :: "(nat \<Rightarrow> real) \<Rightarrow> AppComponent \<Rightarrow> AppComponent" where
  "burnPaper rnd s0 =
     (let s = log_call BurnPaper s0
      in if paperState s = BURNING \<or> paperState s = ASHES then s
         else setTimeout BurnDone 2500
                (generateSparks rnd (log_call PlayBurn (set_paperState BURNING s))))"

definition handleGameLoop :: "(nat \<Rightarrow> real) \<Rightarrow> GestureType \<Rightarrow> real \<Rightarrow> AppComponent \<Rightarrow> AppComponent" where
  "handleGameLoop rnd gesture proximity s0 =
     (let s1 = (if gesture = OPEN_PALM \<or> gesture = NONE then s0\<lparr>canCrumple := True\<rparr> else s0);
          s2 = (if gesture = FIST \<and> canCrumple s1
                then (let s = s1\<lparr>gestureHoldCounter := gestureHoldCounter s1 + 1\<rparr>
                      in if gestureHoldCounter s > 5
                         then (triggerCrumple s)\<lparr>gestureHoldCounter := 0, canCrumple := False\<rparr>
                         else s)
                else s1\<lparr>gestureHoldCounter := 0\<rparr>)
      in if paperState s2 = CRUMPLED_FINAL
         then (if gesture = OPEN_PALM \<and> proximity > 0.15 then burnPaper rnd s2 else s2)
         else s2)"

definition triggerUpload :: "AppComponent \<Rightarrow> AppComponent" where
  "triggerUpload s =
     (if paperState s = IDLE then log_call FileInputClick (log_call AudioInit s) else s)"

definition handleFile :: "File \<Rightarrow> AppComponent \<Rightarrow> AppComponent" where
  "handleFile file s =
     log_call StartMusic
       (set_paperState ACTIVE (s\<lparr>fileName := file_name file, fileType := file_type file\<rparr>))"

text \<open>
  \<open>onFileSelected\<close> and \<open>onDrop\<close> take the event's file list; the empty list stands for a
  missing or empty \<open>files\<close>.
\<close>

definition onFileSelected :: "File list \<Rightarrow> AppComponent \<Rightarrow> AppComponent" where
  "onFileSelected files s = (case files of [] \<Rightarrow> s | file # _ \<Rightarrow> handleFile file s)"

definition onDrop :: "File list \<Rightarrow> AppComponent \<Rightarrow> AppComponent" where
  "onDrop files s0 =
     (let s = log_call AudioInit s0
      in if paperState s \<noteq> IDLE then s
         else (case files of [] \<Rightarrow> s | file # _ \<Rightarrow> handleFile file s))"

definition reset :: "AppComponent \<Rightarrow> AppComponent" where
  "reset s = log_call StopMusic ((set_paperState IDLE s)\<lparr>fileName := [], sparks := []\<rparr>)"

section \<open>Timers and runs\<close>

fun fire :: "callback \<Rightarrow> AppComponent \<Rightarrow> AppComponent" where
  "fire ShakeOff s = s\<lparr>isShaking := False\<rparr>"
| "fire BurnDone s = (set_paperState ASHES s)\<lparr>sparks := []\<rparr>"

text \<open>
  \<open>elapse d\<close> lets \<open>d\<close> milliseconds pass: the timers that are due by then run, earliest
  first (among equals, the one set first), and leave the list. A timer runs when it is due.
\<close>

definition is_due :: "nat \<Rightarrow> nat \<times> callback \<Rightarrow> bool" where
  "is_due t tm = (fst tm \<le> t)"

definition elapse :: "nat \<Rightarrow> AppComponent \<Rightarrow> AppComponent" where
  "elapse d s =
     (let t = clock s + d
      in foldl (\<lambda>s' tm. fire (snd tm) s')
           (s\<lparr>clock := t, timers := filter (\<lambda>tm. \<not> is_due t tm) (timers s)\<rparr>)
           (sort_key fst (filter (is_due t) (timers s))))"

text \<open>What can happen to the component, and a run of such events.\<close>

datatype event =
    Frame GestureType real    \<comment> \<open>one call \<open>handleGameLoop(gesture, proximity)\<close>\<close>
  | Elapse nat
  | Reset
  | Drop "File list"
  | FileSelected "File list"
  | TriggerUpload

fun step :: "(nat \<Rightarrow> real) \<Rightarrow> event \<Rightarrow> AppComponent \<Rightarrow> AppComponent" where
  "step rnd (Frame g p) s = handleGameLoop rnd g p s"
| "step rnd (Elapse d) s = elapse d s"
| "step rnd Reset s = reset s"
| "step rnd (Drop files) s = onDrop files s"
| "step rnd (FileSelected files) s = onFileSelected files s"
| "step rnd TriggerUpload s = triggerUpload s"

fun run :: "(nat \<Rightarrow> real) \<Rightarrow> event list \<Rightarrow> AppComponent \<Rightarrow> AppComponent" where
  "run rnd [] s = s"
| "run rnd (e # es) s = run rnd es (step rnd e s)"

text \<open>The number of \<open>CRUMPLE\<close> events so far: the calls of \<open>triggerCrumple\<close>.\<close>

definition crumples :: "AppComponent \<Rightarrow> nat" where
  "crumples s = count_list (calls s) TriggerCrumple"

text \<open>A release sample: a frame whose gesture is \<open>OPEN_PALM\<close> or \<open>NONE\<close>.\<close>

fun releases :: "event \<Rightarrow> bool" where
  "releases (Frame g p) = (g = OPEN_PALM \<or> g = NONE)"
| "releases e = False"

text \<open>The log entries that are transitions of the paper state.\<close>

fun is_transition :: "call \<Rightarrow> bool" where
  "is_transition (SetPaperState st) = True"
| "is_transition c = False"

text \<open>What one method call or run added to the log.\<close>

definition emitted :: "AppComponent \<Rightarrow> AppComponent \<Rightarrow> call list" where
  "emitted s s' = drop (length (calls s)) (calls s')"

text \<open>A random source for concrete runs: every \<open>Math.random()\<close> returns 0.\<close>

definition no_random :: "nat \<Rightarrow> real" where
  "no_random k = 0"

section \<open>The gesture service\<close>

text \<open>
  \<open>processGesture\<close> computes with JavaScript numbers. Their arithmetic is part of the run
  time, not of the repository, so the service takes it as a parameter: a type \<open>'n\<close> of
  numbers with the operations the method uses. \<open>num_lit\<close> gives the number that a decimal
  literal of the source text denotes, \<open>num_less a b\<close> is \<open>a < b\<close> (and \<open>a > b\<close> is
  \<open>num_less b a\<close>), \<open>math_pow2 v\<close> is \<open>Math.pow(v, 2)\<close>.
\<close>

record 'n arith =
  num_lit :: "real \<Rightarrow> 'n"
  num_less :: "'n \<Rightarrow> 'n \<Rightarrow> bool"
  num_add :: "'n \<Rightarrow> 'n \<Rightarrow> 'n"
  num_sub :: "'n \<Rightarrow> 'n \<Rightarrow> 'n"
  num_mul :: "'n \<Rightarrow> 'n \<Rightarrow> 'n"
  num_div :: "'n \<Rightarrow> 'n \<Rightarrow> 'n"
  math_pow2 :: "'n \<Rightarrow> 'n"
  math_sqrt :: "'n \<Rightarrow> 'n"
  math_max :: "'n \<Rightarrow> 'n \<Rightarrow> 'n"
  math_min :: "'n \<Rightarrow> 'n \<Rightarrow> 'n"

text \<open>
  A landmark is an object with the fields \<open>x\<close>, \<open>y\<close> and \<open>z\<close> (here with the prefix
  \<open>pt_\<close>). Of \<open>GestureService\<close> the two signals that \<open>processGesture\<close> sets are kept.
\<close>

record 'n Landmark =
  pt_x :: 'n
  pt_y :: 'n
  pt_z :: 'n

record 'n GestureService =
  currentGesture :: GestureType
  handProximity :: 'n

text \<open>Reading a field of \<open>undefined\<close> throws a \<open>TypeError\<close>.\<close>

datatype js_error = TypeError

text \<open>\<open>landmarks[i]\<close>: \<open>undefined\<close> (here \<open>None\<close>) past the end of the array.\<close>

definition landmark_at :: "'n Landmark list \<Rightarrow> nat \<Rightarrow> 'n Landmark option" where
  "landmark_at landmarks i = (if i < length landmarks then Some (landmarks ! i) else None)"

text \<open>
  The method \<open>dist\<close> (named \<open>dist_pt\<close> here). \<open>dist_value\<close> is the number it returns for two
  points: every difference, square, sum and the square root is an operation of the run
  time's arithmetic, in the order of the source expression. The method reads \<open>a.x\<close> and
  \<open>b.x\<close> first, so an undefined argument throws.
\<close>

definition dist_value :: "'n arith \<Rightarrow> 'n Landmark \<Rightarrow> 'n Landmark \<Rightarrow> 'n" where
  "dist_value ar a b =
     math_sqrt ar
       (num_add ar
          (num_add ar (math_pow2 ar (num_sub ar (pt_x a) (pt_x b)))
                      (math_pow2 ar (num_sub ar (pt_y a) (pt_y b))))
          (math_pow2 ar (num_sub ar (pt_z a) (pt_z b))))"

definition dist_pt :: "'n arith \<Rightarrow> 'n Landmark option \<Rightarrow> 'n Landmark option \<Rightarrow> js_error + 'n" where
  "dist_pt ar a b =
     (case a of None \<Rightarrow> Inl TypeError
      | Some a' \<Rightarrow> (case b of None \<Rightarrow> Inl TypeError | Some b' \<Rightarrow> Inr (dist_value ar a' b')))"

text \<open>
  The bounding box: one round of the first \<open>forEach\<close>, and the proximity computed from the
  box that the rounds leave, starting from \<open>minX = 1, maxX = 0, minY = 1, maxY = 0\<close>.
\<close>

definition bbox_step :: "'n arith \<Rightarrow> 'n \<times> 'n \<times> 'n \<times> 'n \<Rightarrow> 'n Landmark \<Rightarrow> 'n \<times> 'n \<times> 'n \<times> 'n" where
  "bbox_step ar box pt =
     (case box of (minX, maxX, minY, maxY) \<Rightarrow>
        (if num_less ar (pt_x pt) minX then pt_x pt else minX,
         if num_less ar maxX (pt_x pt) then pt_x pt else maxX,
         if num_less ar (pt_y pt) minY then pt_y pt else minY,
         if num_less ar maxY (pt_y pt) then pt_y pt else maxY))"

definition proximity_of :: "'n arith \<Rightarrow> 'n Landmark list \<Rightarrow> 'n" where
  "proximity_of ar landmarks =
     (case foldl (bbox_step ar) (num_lit ar 1, num_lit ar 0, num_lit ar 1, num_lit ar 0) landmarks of
        (minX, maxX, minY, maxY) \<Rightarrow>
        (let width = num_sub ar maxX minX;
             height = num_sub ar maxY minY;
             area = num_mul ar width height
         in math_min ar
              (math_max ar (num_div ar (num_sub ar area (num_lit ar 0.05)) (num_lit ar 0.25))
                 (num_lit ar 0))
              (num_lit ar 1)))"

text \<open>
  The second \<open>forEach\<close>, over the tips paired with \<open>mcps[i]\<close>: a round computes \<open>dTip\<close>,
  \<open>dMcp\<close> (unused) and \<open>dPip\<close>, in this order, and counts the finger when
  \<open>dTip < dPip\<close>. A throw ends the loop.
\<close>

fun curl_loop :: "'n arith \<Rightarrow> 'n Landmark list \<Rightarrow> (nat \<times> nat) list \<Rightarrow> nat \<Rightarrow> js_error + nat" where
  "curl_loop ar landmarks [] curledCount = Inr curledCount"
| "curl_loop ar landmarks ((tipIdx, mcpIdx) # rest) curledCount =
     (let wrist = landmark_at landmarks 0;
          tip = landmark_at landmarks tipIdx;
          mcp = landmark_at landmarks mcpIdx
      in case dist_pt ar tip wrist of Inl e \<Rightarrow> Inl e
         | Inr dTip \<Rightarrow>
        (case dist_pt ar mcp wrist of Inl e \<Rightarrow> Inl e
         | Inr dMcp \<Rightarrow>
        (case dist_pt ar (landmark_at landmarks (tipIdx - 2)) wrist of Inl e \<Rightarrow> Inl e
         | Inr dPip \<Rightarrow>
             curl_loop ar landmarks rest
               (if num_less ar dTip dPip then curledCount + 1 else curledCount))))"

text \<open>
  \<open>processGesture\<close> returns the error thrown, if any, and the service as the call leaves
  it: the proximity signal is set before the fingers are looked at.
\<close>

definition processGesture ::
  "'n arith \<Rightarrow> 'n Landmark list \<Rightarrow> 'n GestureService \<Rightarrow> js_error option \<times> 'n GestureService" where
  "processGesture ar landmarks gs0 =
     (let gs = gs0\<lparr>handProximity := proximity_of ar landmarks\<rparr>
      in case curl_loop ar landmarks (zip [8, 12, 16, 20] [5, 9, 13, 17]) 0 of
           Inl e \<Rightarrow> (Some e, gs)
         | Inr curledCount \<Rightarrow>
             (None,
              gs\<lparr>currentGesture :=
                   (if curledCount \<ge> 3 then FIST
                    else if curledCount = 0 then OPEN_PALM
                    else NONE)\<rparr>))"

text \<open>
  The classification in closed form: a finger (given by its tip; the PIP joint is two
  indices below) is curled when the distance from its tip to the wrist, as \<open>dist\<close> computes
  it, is less than the computed distance from its PIP joint to the wrist; the gesture
  follows from the number of curled fingers among index, middle, ring and pinky.
\<close>

definition curled :: "'n arith \<Rightarrow> 'n Landmark list \<Rightarrow> nat \<Rightarrow> bool" where
  "curled ar landmarks tip =
     num_less ar (dist_value ar (landmarks ! tip) (landmarks ! 0))
                 (dist_value ar (landmarks ! (tip - 2)) (landmarks ! 0))"

definition classify :: "'n arith \<Rightarrow> 'n Landmark list \<Rightarrow> GestureType" where
  "classify ar landmarks =
     (let c = length (filter (curled ar landmarks) [8, 12, 16, 20])
      in if c \<ge> 3 then FIST else if c = 0 then OPEN_PALM else NONE)"

section \<open>The arithmetic of JavaScript numbers\<close>

text \<open>
  The numbers of the run time are the IEEE 754 binary64 values: \<open>Num r\<close> is the finite
  double of value \<open>r\<close>, beside the two infinities and \<open>NaN\<close>. The two zeros are one value
  here; \<open>processGesture\<close> never divides by a zero (its only divisor is the literal 0.25) and
  compares, squares and takes maxima of the others, where the sign of a zero does not show.

  \<open>rd\<close> rounds a real number to the nearest double, a tie to the one with the even
  significand: the spacing of the doubles around \<open>a\<close> is \<open>ulp_of a\<close> (52 fraction bits, the
  exponent not below -1022, which gives the subnormal numbers their fixed spacing), and a
  result of \<open>2 ^ 1024\<close> or more is an infinity.
\<close>

datatype number = Num real | PosInf | NegInf | NaN

definition round_even :: "real \<Rightarrow> int" where
  "round_even q =
     (let n = \<lfloor>q\<rfloor>; f = q - of_int n
      in if f < 1 / 2 then n else if 1 / 2 < f then n + 1 else if even n then n else n + 1)"

definition ulp_of :: "real \<Rightarrow> real" where
  "ulp_of a = 2 powi (max \<lfloor>log 2 a\<rfloor> (- 1022) - 52)"

definition rd :: "real \<Rightarrow> number" where
  "rd x =
     (if x = 0 then Num 0
      else (let a = \<bar>x\<bar>;
                y = of_int (round_even (a / ulp_of a)) * ulp_of a
            in if 2 ^ 1024 \<le> y then (if 0 < x then PosInf else NegInf)
               else Num (if 0 < x then y else - y)))"

text \<open>
  The operations: sum, difference, product and quotient are the exact result rounded, with
  the IEEE rules for infinities and \<open>NaN\<close>; a comparison with \<open>NaN\<close> is false.
\<close>

fun js_neg :: "number \<Rightarrow> number" where
  "js_neg (Num a) = Num (- a)"
| "js_neg PosInf = NegInf"
| "js_neg NegInf = PosInf"
| "js_neg NaN = NaN"

fun js_less :: "number \<Rightarrow> number \<Rightarrow> bool" where
  "js_less (Num a) (Num b) = (a < b)"
| "js_less (Num a) PosInf = True"
| "js_less NegInf (Num b) = True"
| "js_less NegInf PosInf = True"
| "js_less a b = False"

fun js_add :: "number \<Rightarrow> number \<Rightarrow> number" where
  "js_add (Num a) (Num b) = rd (a + b)"
| "js_add NaN b = NaN"
| "js_add a NaN = NaN"
| "js_add PosInf NegInf = NaN"
| "js_add NegInf PosInf = NaN"
| "js_add PosInf b = PosInf"
| "js_add NegInf b = NegInf"
| "js_add (Num a) b = b"

definition js_sub :: "number \<Rightarrow> number \<Rightarrow> number" where
  "js_sub a b = js_add a (js_neg b)"

definition sign_inf :: "bool \<Rightarrow> number" where
  "sign_inf negative = (if negative then NegInf else PosInf)"

fun is_neg :: "number \<Rightarrow> bool" where
  "is_neg (Num a) = (a < 0)"
| "is_neg NegInf = True"
| "is_neg a = False"

fun js_mul :: "number \<Rightarrow> number \<Rightarrow> number" where
  "js_mul (Num a) (Num b) = rd (a * b)"
| "js_mul NaN b = NaN"
| "js_mul a NaN = NaN"
| "js_mul (Num a) b = (if a = 0 then NaN else sign_inf (is_neg (Num a) \<noteq> is_neg b))"
| "js_mul a (Num b) = (if b = 0 then NaN else sign_inf (is_neg a \<noteq> is_neg (Num b)))"
| "js_mul a b = sign_inf (is_neg a \<noteq> is_neg b)"

fun js_div :: "number \<Rightarrow> number \<Rightarrow> number" where
  "js_div (Num a) (Num b) =
     (if b = 0 then (if a = 0 then NaN else sign_inf (a < 0)) else rd (a / b))"
| "js_div NaN b = NaN"
| "js_div a NaN = NaN"
| "js_div (Num a) b = Num 0"
| "js_div a (Num b) = sign_inf (is_neg a \<noteq> is_neg (Num b))"
| "js_div a b = NaN"

text \<open>
  \<open>Math.pow(v, 2)\<close> is the rounded product \<open>v * v\<close> and \<open>Math.sqrt\<close> the rounded square
  root, as the engines compute them; \<open>Math.max\<close> and \<open>Math.min\<close> give \<open>NaN\<close> when an
  argument is \<open>NaN\<close>.
\<close>

fun js_pow2 :: "number \<Rightarrow> number" where
  "js_pow2 (Num a) = rd (a * a)"
| "js_pow2 NaN = NaN"
| "js_pow2 a = PosInf"

fun js_sqrt :: "number \<Rightarrow> number" where
  "js_sqrt (Num a) = (if a < 0 then NaN else rd (sqrt a))"
| "js_sqrt PosInf = PosInf"
| "js_sqrt a = NaN"

fun js_max :: "number \<Rightarrow> number \<Rightarrow> number" where
  "js_max NaN b = NaN"
| "js_max a NaN = NaN"
| "js_max a b = (if js_less a b then b else a)"

fun js_min :: "number \<Rightarrow> number \<Rightarrow> number" where
  "js_min NaN b = NaN"
| "js_min a NaN = NaN"
| "js_min a b = (if js_less b a then b else a)"

definition binary64 :: "number arith" where
  "binary64 =
     \<lparr> num_lit = rd, num_less = js_less, num_add = js_add, num_sub = js_sub,
       num_mul = js_mul, num_div = js_div, math_pow2 = js_pow2, math_sqrt = js_sqrt,
       math_max = js_max, math_min = js_min \<rparr>"

text \<open>The signals as the class initialises them.\<close>

definition service_initial :: "number GestureService" where
  "service_initial = \<lparr> currentGesture = NONE, handProximity = Num 0 \<rparr>"

text \<open>
  The classification as the specification words it, on the exact values of the
  coordinates: the Euclidean distance of two points, a finger curled when its tip is
  strictly nearer to the wrist than its PIP joint, and the gesture from the number of
  curled fingers among index, middle, ring and pinky.
\<close>

definition real_of :: "number \<Rightarrow> real" where
  "real_of v = (case v of Num r \<Rightarrow> r | _ \<Rightarrow> 0)"

definition euclid_spec :: "number Landmark \<Rightarrow> number Landmark \<Rightarrow> real" where
  "euclid_spec a b =
     sqrt ((real_of (pt_x a) - real_of (pt_x b))\<^sup>2 + (real_of (pt_y a) - real_of (pt_y b))\<^sup>2
           + (real_of (pt_z a) - real_of (pt_z b))\<^sup>2)"

definition curled_spec :: "number Landmark list \<Rightarrow> nat \<Rightarrow> bool" where
  "curled_spec landmarks tip =
     (euclid_spec (landmarks ! tip) (landmarks ! 0) < euclid_spec (landmarks ! (tip - 2)) (landmarks ! 0))"

definition classify_spec :: "number Landmark list \<Rightarrow> GestureType" where
  "classify_spec landmarks =
     (let c = length (filter (curled_spec landmarks) [8, 12, 16, 20])
      in if c \<ge> 3 then FIST else if c = 0 then OPEN_PALM else NONE)"

text \<open>
  Two concrete hands, all coordinates doubles. In \<open>fist_hand\<close> the wrist is at the bottom,
  index, middle and ring finger are folded back and the pinky is stretched out. In
  \<open>near_tie_hand\<close> every PIP joint is farther from the wrist than its tip by less than the
  rounding of the sum of squares.
\<close>

definition pt :: "real \<Rightarrow> real \<Rightarrow> real \<Rightarrow> number Landmark" where
  "pt a b c = \<lparr> pt_x = Num a, pt_y = Num b, pt_z = Num c \<rparr>"

definition fist_hand :: "number Landmark list" where
  "fist_hand =
     [pt (1/2) 1 0,
      pt (1/4) 1 0, pt (1/4) (3/4) 0, pt (1/4) (1/2) 0, pt (1/4) (1/2) 0,
      pt (1/2) (3/4) 0, pt (1/2) (1/2) 0, pt (1/2) (1/2) 0, pt (1/2) (3/4) 0,
      pt (1/2) (3/4) 0, pt (1/2) (1/2) 0, pt (1/2) (1/2) 0, pt (1/2) (3/4) 0,
      pt (1/2) (3/4) 0, pt (1/2) (1/2) 0, pt (1/2) (1/2) 0, pt (1/2) (3/4) 0,
      pt (1/2) (3/4) 0, pt (1/2) (1/2) 0, pt (1/2) (1/4) 0, pt (1/2) 0 0]"

definition near_tie_hand :: "number Landmark list" where
  "near_tie_hand =
     [pt 0 0 0,
      pt (1/4) 0 0, pt (1/4) 0 0, pt (1/4) 0 0, pt (1/4) 0 0,
      pt (1/4) 0 0, pt (1/2) (1 / 2 ^ 30) 0, pt (1/2) 0 0, pt (1/2) 0 0,
      pt (1/4) 0 0, pt (1/2) (1 / 2 ^ 30) 0, pt (1/2) 0 0, pt (1/2) 0 0,
      pt (1/4) 0 0, pt (1/2) (1 / 2 ^ 30) 0, pt (1/2) 0 0, pt (1/2) 0 0,
      pt (1/4) 0 0, pt (1/2) (1 / 2 ^ 30) 0, pt (1/2) 0 0, pt (1/2) 0 0]"

section \<open>Concrete inputs\<close>

text \<open>Concrete inputs: two files, a fist held for six frames, and the run that loads a file and
  crumples it three times, with a release sample between the holds.\<close>

definition paper :: File where
  "paper = \<lparr>file_name = ''notes.txt'', file_type = ''text/plain''\<rparr>"

definition photo :: File where
  "photo = \<lparr>file_name = ''cat.png'', file_type = ''image/png''\<rparr>"

definition six_fists :: "event list" where
  "six_fists = replicate 6 (Frame FIST 0)"

definition crumple_thrice :: "event list" where
  "crumple_thrice = Drop [paper] # six_fists @ Frame NONE 0 # six_fists @ Frame NONE 0 # six_fists"

section \<open>The debouncer\<close>

lemma crumples_triggerCrumple: "crumples (triggerCrumple s) = Suc (crumples s)"
  by (simp add: crumples_def triggerCrumple_def Let_def log_call_def set_paperState_def setTimeout_def)

lemma hgl_fist_count:
  "canCrumple s \<Longrightarrow> gestureHoldCounter s < 5 \<Longrightarrow>
   handleGameLoop rnd FIST p s = s\<lparr>gestureHoldCounter := Suc (gestureHoldCounter s)\<rparr>"
  by (simp add: handleGameLoop_def Let_def)

lemma hgl_fist_closed:
  "\<not> canCrumple s \<Longrightarrow> handleGameLoop rnd FIST p s = s\<lparr>gestureHoldCounter := 0\<rparr>"
  by (simp add: handleGameLoop_def Let_def)

lemma hgl_fist_fire:
  "canCrumple s \<Longrightarrow> 5 \<le> gestureHoldCounter s \<Longrightarrow>
   handleGameLoop rnd FIST p s =
     (triggerCrumple (s\<lparr>gestureHoldCounter := gestureHoldCounter s + 1\<rparr>))
       \<lparr>gestureHoldCounter := 0, canCrumple := False\<rparr>"
  by (simp add: handleGameLoop_def Let_def)

lemma fire_all_gate:
  "canCrumple (foldl (\<lambda>s' tm. fire (snd tm) s') s tms) = canCrumple s \<and>
   gestureHoldCounter (foldl (\<lambda>s' tm. fire (snd tm) s') s tms) = gestureHoldCounter s \<and>
   crumples (foldl (\<lambda>s' tm. fire (snd tm) s') s tms) = crumples s"
proof (induction tms arbitrary: s)
  case Nil
  show ?case by simp
next
  case (Cons tm tms)
  have "canCrumple (fire (snd tm) s) = canCrumple s \<and>
        gestureHoldCounter (fire (snd tm) s) = gestureHoldCounter s \<and>
        crumples (fire (snd tm) s) = crumples s"
    by (cases "snd tm") (simp_all add: set_paperState_def log_call_def crumples_def)
  with Cons.IH [of "fire (snd tm) s"] show ?case by simp
qed

lemma elapse_gate:
  "canCrumple (elapse d s) = canCrumple s \<and>
   gestureHoldCounter (elapse d s) = gestureHoldCounter s \<and>
   crumples (elapse d s) = crumples s"
  using fire_all_gate [of "s\<lparr>clock := clock s + d, timers := filter (\<lambda>tm. \<not> is_due (clock s + d) tm) (timers s)\<rparr>"]
  by (simp add: elapse_def Let_def crumples_def)

lemma reset_gate:
  "canCrumple (reset s) = canCrumple s \<and>
   gestureHoldCounter (reset s) = gestureHoldCounter s \<and>
   crumples (reset s) = crumples s"
  by (simp add: reset_def set_paperState_def log_call_def crumples_def)

lemma handleFile_gate:
  "canCrumple (handleFile f s) = canCrumple s \<and>
   gestureHoldCounter (handleFile f s) = gestureHoldCounter s \<and>
   crumples (handleFile f s) = crumples s"
  by (simp add: handleFile_def set_paperState_def log_call_def crumples_def)

lemma onDrop_gate:
  "canCrumple (onDrop fs s) = canCrumple s \<and>
   gestureHoldCounter (onDrop fs s) = gestureHoldCounter s \<and>
   crumples (onDrop fs s) = crumples s"
  using handleFile_gate [of _ "log_call AudioInit s"]
  by (simp add: onDrop_def Let_def log_call_def crumples_def split: list.split)

lemma onFileSelected_gate:
  "canCrumple (onFileSelected fs s) = canCrumple s \<and>
   gestureHoldCounter (onFileSelected fs s) = gestureHoldCounter s \<and>
   crumples (onFileSelected fs s) = crumples s"
  by (simp add: onFileSelected_def handleFile_gate split: list.split)

lemma triggerUpload_gate:
  "canCrumple (triggerUpload s) = canCrumple s \<and>
   gestureHoldCounter (triggerUpload s) = gestureHoldCounter s \<and>
   crumples (triggerUpload s) = crumples s"
  by (simp add: triggerUpload_def log_call_def crumples_def)

text \<open>An event that is no release sample keeps a closed gate closed and fires no crumple.\<close>

lemma step_gate_closed:
  "\<not> canCrumple s \<Longrightarrow> \<not> releases e \<Longrightarrow>
   \<not> canCrumple (step rnd e s) \<and> crumples (step rnd e s) = crumples s"
proof (cases e)
  case (Frame g p)
  assume "\<not> canCrumple s" "\<not> releases e"
  with Frame have "g = FIST" by (cases g) simp_all
  with Frame \<open>\<not> canCrumple s\<close> show ?thesis
    by (simp add: hgl_fist_closed crumples_def)
qed (simp_all add: elapse_gate reset_gate onDrop_gate onFileSelected_gate triggerUpload_gate)

lemma run_gate_closed:
  "\<not> canCrumple s \<Longrightarrow> \<forall>e\<in>set es. \<not> releases e \<Longrightarrow>
   \<not> canCrumple (run rnd es s) \<and> crumples (run rnd es s) = crumples s"
proof (induction es arbitrary: s)
  case Nil
  then show ?case by simp
next
  case (Cons e es)
  from Cons.prems have "\<not> canCrumple (step rnd e s) \<and> crumples (step rnd e s) = crumples s"
    by (simp add: step_gate_closed)
  with Cons.IH [of "step rnd e s"] Cons.prems show ?case by simp
qed

text \<open>A frame that fires a crumple leaves the gate closed.\<close>

lemma crumple_closes_gate:
  "crumples (handleGameLoop rnd g p s) \<noteq> crumples s \<Longrightarrow> \<not> canCrumple (handleGameLoop rnd g p s)"
proof (cases g)
  case FIST
  assume "crumples (handleGameLoop rnd g p s) \<noteq> crumples s"
  with FIST show ?thesis
    by (cases "canCrumple s"; cases "gestureHoldCounter s < 5")
       (simp_all add: hgl_fist_count hgl_fist_closed hgl_fist_fire crumples_def)
next
  case NONE
  assume "crumples (handleGameLoop rnd g p s) \<noteq> crumples s"
  with NONE show ?thesis
    by (simp add: handleGameLoop_def Let_def crumples_def split: if_splits)
next
  case OPEN_PALM
  assume "crumples (handleGameLoop rnd g p s) \<noteq> crumples s"
  with OPEN_PALM show ?thesis
    by (simp add: handleGameLoop_def Let_def crumples_def burnPaper_def log_call_def
        set_paperState_def setTimeout_def generateSparks_def split: if_splits)
qed

lemma run_append: "run rnd (es @ es') s = run rnd es' (run rnd es s)"
  by (induction es arbitrary: s) simp_all

text \<open>
  Claim C3. Once a frame has fired a \<open>CRUMPLE\<close>, no further \<open>CRUMPLE\<close> fires while
  every later sample is \<open>FIST\<close>, however many there are and whatever else happens in
  between (time passing, resets, file events); and if a later \<open>CRUMPLE\<close> does fire, an
  \<open>OPEN_PALM\<close> or \<open>NONE\<close> sample came first, with no \<open>CRUMPLE\<close> before it.
\<close>

theorem crumple_needs_rearm:
  assumes fired: "crumples (handleGameLoop rnd g p s) \<noteq> crumples s"
  shows "((\<forall>e\<in>set es. \<not> releases e) \<longrightarrow>
            crumples (run rnd es (handleGameLoop rnd g p s)) = crumples (handleGameLoop rnd g p s)) \<and>
         (crumples (run rnd es (handleGameLoop rnd g p s)) \<noteq> crumples (handleGameLoop rnd g p s) \<longrightarrow>
            (\<exists>es1 g' p' es2. es = es1 @ Frame g' p' # es2 \<and> (g' = OPEN_PALM \<or> g' = NONE) \<and>
               crumples (run rnd es1 (handleGameLoop rnd g p s)) = crumples (handleGameLoop rnd g p s)))"
proof -
  define s1 where "s1 = handleGameLoop rnd g p s"
  have closed: "\<not> canCrumple s1"
    using fired unfolding s1_def by (rule crumple_closes_gate)
  have hold: "crumples (run rnd es' s1) = crumples s1" if "\<forall>e\<in>set es'. \<not> releases e" for es'
    using run_gate_closed [OF closed that] by simp
  have rearm: "\<exists>es1 g' p' es2. es = es1 @ Frame g' p' # es2 \<and> (g' = OPEN_PALM \<or> g' = NONE) \<and>
               crumples (run rnd es1 s1) = crumples s1"
    if again: "crumples (run rnd es s1) \<noteq> crumples s1"
  proof -
    from again hold [of es] have "\<exists>e\<in>set es. releases e" by blast
    then obtain es1 e es2 where split: "es = es1 @ e # es2" "releases e" "\<forall>e'\<in>set es1. \<not> releases e'"
      using split_list_first_prop [of es releases] by blast
    from \<open>releases e\<close> obtain g' p' where "e = Frame g' p'" "g' = OPEN_PALM \<or> g' = NONE"
      by (cases e) simp_all
    with split hold [of es1] show ?thesis by blast
  qed
  from hold [of es] rearm show ?thesis unfolding s1_def by blast
qed

theorem crumple_needs_rearm_witness:
  "crumples (handleGameLoop no_random FIST 0 (run no_random (Drop [paper] # replicate 5 (Frame FIST 0)) initial))
     \<noteq> crumples (run no_random (Drop [paper] # replicate 5 (Frame FIST 0)) initial) \<and>
   \<not> (\<exists>e\<in>set (six_fists @ Reset # Elapse 400 # six_fists). releases e) \<and>
   crumples (run no_random (six_fists @ Reset # Elapse 400 # six_fists)
       (handleGameLoop no_random FIST 0 (run no_random (Drop [paper] # replicate 5 (Frame FIST 0)) initial)))
     = crumples (handleGameLoop no_random FIST 0 (run no_random (Drop [paper] # replicate 5 (Frame FIST 0)) initial)) \<and>
   crumples (run no_random (six_fists @ Frame NONE 0 # six_fists)
       (handleGameLoop no_random FIST 0 (run no_random (Drop [paper] # replicate 5 (Frame FIST 0)) initial)))
     \<noteq> crumples (handleGameLoop no_random FIST 0 (run no_random (Drop [paper] # replicate 5 (Frame FIST 0)) initial)) \<and>
   (\<exists>es1 g' p' es2. six_fists @ Frame NONE 0 # six_fists = es1 @ Frame g' p' # es2 \<and>
      (g' = OPEN_PALM \<or> g' = NONE) \<and>
      crumples (run no_random es1
          (handleGameLoop no_random FIST 0 (run no_random (Drop [paper] # replicate 5 (Frame FIST 0)) initial)))
        = crumples (handleGameLoop no_random FIST 0 (run no_random (Drop [paper] # replicate 5 (Frame FIST 0)) initial)))"
proof -
  have fired: "crumples (handleGameLoop no_random FIST 0 (run no_random (Drop [paper] # replicate 5 (Frame FIST 0)) initial))
     \<noteq> crumples (run no_random (Drop [paper] # replicate 5 (Frame FIST 0)) initial)"
    by code_simp
  have quiet: "\<not> (\<exists>e\<in>set (six_fists @ Reset # Elapse 400 # six_fists). releases e)"
    by (simp add: six_fists_def)
  have again: "crumples (run no_random (six_fists @ Frame NONE 0 # six_fists)
       (handleGameLoop no_random FIST 0 (run no_random (Drop [paper] # replicate 5 (Frame FIST 0)) initial)))
     \<noteq> crumples (handleGameLoop no_random FIST 0 (run no_random (Drop [paper] # replicate 5 (Frame FIST 0)) initial))"
    unfolding six_fists_def by code_simp
  from crumple_needs_rearm [OF fired, of "six_fists @ Reset # Elapse 400 # six_fists"] quiet
  have held: "crumples (run no_random (six_fists @ Reset # Elapse 400 # six_fists)
       (handleGameLoop no_random FIST 0 (run no_random (Drop [paper] # replicate 5 (Frame FIST 0)) initial)))
     = crumples (handleGameLoop no_random FIST 0 (run no_random (Drop [paper] # replicate 5 (Frame FIST 0)) initial))"
    by blast
  from crumple_needs_rearm [OF fired, of "six_fists @ Frame NONE 0 # six_fists"] again
  have "\<exists>es1 g' p' es2. six_fists @ Frame NONE 0 # six_fists = es1 @ Frame g' p' # es2 \<and>
      (g' = OPEN_PALM \<or> g' = NONE) \<and>
      crumples (run no_random es1
          (handleGameLoop no_random FIST 0 (run no_random (Drop [paper] # replicate 5 (Frame FIST 0)) initial)))
        = crumples (handleGameLoop no_random FIST 0 (run no_random (Drop [paper] # replicate 5 (Frame FIST 0)) initial))"
    by blast
  with fired quiet again held show ?thesis by blast
qed

lemma fists_count:
  "canCrumple s \<Longrightarrow> gestureHoldCounter s + length ps \<le> 5 \<Longrightarrow>
   run rnd (map (Frame FIST) ps) s = s\<lparr>gestureHoldCounter := gestureHoldCounter s + length ps\<rparr>"
proof (induction ps arbitrary: s)
  case Nil
  then show ?case by simp
next
  case (Cons p ps)
  then show ?case by (simp add: hgl_fist_count)
qed

text \<open>
  Claim C2. From a debounce state with counter 0 and open gate, five consecutive \<open>FIST\<close>
  samples (of any proximity) fire no \<open>CRUMPLE\<close>, at any point; the sixth fires exactly
  one, and leaves the counter 0 and the gate closed.
\<close>

theorem six_fists_crumple_once:
  assumes "gestureHoldCounter s = 0" and "canCrumple s" and "length ps = 5"
  shows "(\<forall>k\<le>5. crumples (run rnd (map (Frame FIST) (take k ps)) s) = crumples s) \<and>
         crumples (handleGameLoop rnd FIST p (run rnd (map (Frame FIST) ps) s)) = Suc (crumples s) \<and>
         gestureHoldCounter (handleGameLoop rnd FIST p (run rnd (map (Frame FIST) ps) s)) = 0 \<and>
         \<not> canCrumple (handleGameLoop rnd FIST p (run rnd (map (Frame FIST) ps) s))"
proof -
  have five: "run rnd (map (Frame FIST) ps) s = s\<lparr>gestureHoldCounter := 5\<rparr>"
    using assms fists_count [of s ps rnd] by simp
  have "crumples (run rnd (map (Frame FIST) (take k ps)) s) = crumples s" if "k \<le> 5" for k
    using assms that fists_count [of s "take k ps" rnd] by (simp add: crumples_def)
  moreover have "crumples (handleGameLoop rnd FIST p (s\<lparr>gestureHoldCounter := 5\<rparr>)) = Suc (crumples s)"
    using assms by (simp add: hgl_fist_fire crumples_triggerCrumple [unfolded crumples_def] crumples_def)
  moreover have "gestureHoldCounter (handleGameLoop rnd FIST p (s\<lparr>gestureHoldCounter := 5\<rparr>)) = 0"
    using assms by (simp add: hgl_fist_fire)
  moreover have "\<not> canCrumple (handleGameLoop rnd FIST p (s\<lparr>gestureHoldCounter := 5\<rparr>))"
    using assms by (simp add: hgl_fist_fire)
  ultimately show ?thesis by (simp add: five)
qed

theorem six_fists_crumple_once_witness:
  "gestureHoldCounter initial = 0 \<and> canCrumple initial \<and>
   length [0.1, 0.2, 0.3, 0.2, 0.1 :: real] = 5 \<and>
   crumples (run no_random (map (Frame FIST) (take 5 [0.1, 0.2, 0.3, 0.2, 0.1])) initial) = 0 \<and>
   crumples (handleGameLoop no_random FIST 0.3
      (run no_random (map (Frame FIST) [0.1, 0.2, 0.3, 0.2, 0.1]) initial)) = 1 \<and>
   gestureHoldCounter (handleGameLoop no_random FIST 0.3
      (run no_random (map (Frame FIST) [0.1, 0.2, 0.3, 0.2, 0.1]) initial)) = 0 \<and>
   \<not> canCrumple (handleGameLoop no_random FIST 0.3
      (run no_random (map (Frame FIST) [0.1, 0.2, 0.3, 0.2, 0.1]) initial))"
proof -
  have a: "gestureHoldCounter initial = 0" and b: "canCrumple initial"
    by (simp_all add: initial_def)
  have c: "length [0.1, 0.2, 0.3, 0.2, 0.1 :: real] = 5"
    by simp
  have z: "crumples initial = 0"
    by (simp add: crumples_def initial_def)
  from six_fists_crumple_once [OF a b c, of no_random "0.3"] a b c z show ?thesis
    by (metis le_refl One_nat_def)
qed

text \<open>
  Claim C10. One call of \<open>handleGameLoop\<close> only appends to the log, and what it appends
  holds at most one transition of the paper state and never both a \<open>triggerCrumple\<close> and
  a \<open>burnPaper\<close>: it is nothing, or a crumple (with or without a transition) on a \<open>FIST\<close>
  sample, or the start of the burn on an \<open>OPEN_PALM\<close> sample.
\<close>

theorem one_transition_per_frame:
  "calls (handleGameLoop rnd g p s) = calls s @ emitted s (handleGameLoop rnd g p s) \<and>
   length (filter is_transition (emitted s (handleGameLoop rnd g p s))) \<le> 1 \<and>
   \<not> (TriggerCrumple \<in> set (emitted s (handleGameLoop rnd g p s)) \<and>
      BurnPaper \<in> set (emitted s (handleGameLoop rnd g p s))) \<and>
   (emitted s (handleGameLoop rnd g p s) = [] \<or>
    g = FIST \<and> emitted s (handleGameLoop rnd g p s) = [TriggerCrumple] \<or>
    g = FIST \<and> (\<exists>st. emitted s (handleGameLoop rnd g p s) = [TriggerCrumple, SetPaperState st, PlayCrumple]) \<or>
    g = OPEN_PALM \<and> emitted s (handleGameLoop rnd g p s) = [BurnPaper, SetPaperState BURNING, PlayBurn])"
proof -
  have shape: "\<exists>new. calls (handleGameLoop rnd g p s) = calls s @ new \<and>
     (new = [] \<or> g = FIST \<and> new = [TriggerCrumple] \<or>
      g = FIST \<and> (\<exists>st. new = [TriggerCrumple, SetPaperState st, PlayCrumple]) \<or>
      g = OPEN_PALM \<and> new = [BurnPaper, SetPaperState BURNING, PlayBurn])"
  proof (cases g)
    case FIST
    then show ?thesis
      by (cases "canCrumple s"; cases "gestureHoldCounter s < 5")
         (simp_all add: hgl_fist_count hgl_fist_closed hgl_fist_fire triggerCrumple_def Let_def
            log_call_def set_paperState_def setTimeout_def)
  next
    case NONE
    then show ?thesis by (simp add: handleGameLoop_def Let_def)
  next
    case OPEN_PALM
    then show ?thesis
      by (simp add: handleGameLoop_def Let_def burnPaper_def log_call_def set_paperState_def
          setTimeout_def generateSparks_def)
  qed
  then obtain new where new: "calls (handleGameLoop rnd g p s) = calls s @ new"
    and cases: "new = [] \<or> g = FIST \<and> new = [TriggerCrumple] \<or>
      g = FIST \<and> (\<exists>st. new = [TriggerCrumple, SetPaperState st, PlayCrumple]) \<or>
      g = OPEN_PALM \<and> new = [BurnPaper, SetPaperState BURNING, PlayBurn]"
    by blast
  have em: "emitted s (handleGameLoop rnd g p s) = new"
    by (simp add: emitted_def new)
  from cases have "length (filter is_transition new) \<le> 1"
    by auto
  moreover from cases have "\<not> (TriggerCrumple \<in> set new \<and> BurnPaper \<in> set new)"
    by auto
  ultimately show ?thesis
    using new cases unfolding em by blast
qed

text \<open>
  Claim C7, amended. The component is constructed with counter 0 and open gate; \<open>reset\<close>
  leaves the counter and the gate as they are.
\<close>

theorem reset_keeps_debounce_state:
  "gestureHoldCounter initial = 0 \<and> canCrumple initial = True \<and>
   gestureHoldCounter (reset s) = gestureHoldCounter s \<and> canCrumple (reset s) = canCrumple s"
  by (simp add: initial_def reset_def set_paperState_def log_call_def)

text \<open>
  Claim C7 as stated fails: after three \<open>FIST\<close> frames a reset leaves the counter at 3, and
  after six it leaves the gate closed.
\<close>

theorem reset_debounce_counterexample:
  "gestureHoldCounter (reset (run no_random [Frame FIST 0, Frame FIST 0, Frame FIST 0] initial)) = 3 \<and>
   canCrumple (reset (run no_random six_fists initial)) = False"
  by (simp add: six_fists_def) code_simp

text \<open>In every state a run from the constructed component reaches, a closed gate comes with
  counter 0.\<close>

lemma step_gate_counter:
  assumes "\<not> canCrumple s \<longrightarrow> gestureHoldCounter s = 0"
  shows "\<not> canCrumple (step rnd e s) \<longrightarrow> gestureHoldCounter (step rnd e s) = 0"
proof (cases e)
  case (Frame g p)
  show ?thesis
  proof (cases g)
    case FIST
    with Frame assms show ?thesis
      by (cases "canCrumple s"; cases "gestureHoldCounter s < 5")
         (simp_all add: hgl_fist_count hgl_fist_closed hgl_fist_fire)
  next
    case NONE
    with Frame show ?thesis by (simp add: handleGameLoop_def Let_def)
  next
    case OPEN_PALM
    with Frame show ?thesis
      by (simp add: handleGameLoop_def Let_def burnPaper_def log_call_def set_paperState_def
          setTimeout_def generateSparks_def)
  qed
qed (use assms in \<open>simp_all add: elapse_gate reset_gate onDrop_gate onFileSelected_gate triggerUpload_gate\<close>)

lemma run_gate_counter:
  "\<not> canCrumple s \<longrightarrow> gestureHoldCounter s = 0 \<Longrightarrow>
   \<not> canCrumple (run rnd es s) \<longrightarrow> gestureHoldCounter (run rnd es s) = 0"
proof (induction es arbitrary: s)
  case Nil
  then show ?case by simp
next
  case (Cons e es)
  from Cons.prems have "\<not> canCrumple (step rnd e s) \<longrightarrow> gestureHoldCounter (step rnd e s) = 0"
    by (rule step_gate_counter)
  then show ?case using Cons.IH [of "step rnd e s"] by simp
qed

text \<open>
  Claim C8. In every state that a run from the constructed component reaches with the gate
  closed, a \<open>FIST\<close> sample leaves the counter unchanged, keeps the gate closed and fires
  no \<open>CRUMPLE\<close>. (The branch taken assigns 0 to the counter, and 0 is the only value the
  counter has while the gate is closed: the two fields are private and written only in
  \<open>handleGameLoop\<close>, which closes the gate together with setting the counter to 0.)
\<close>

theorem closed_gate_fist_keeps_counter:
  assumes "\<not> canCrumple (run rnd' es initial)"
  shows "gestureHoldCounter (handleGameLoop rnd FIST p (run rnd' es initial))
           = gestureHoldCounter (run rnd' es initial) \<and>
         \<not> canCrumple (handleGameLoop rnd FIST p (run rnd' es initial)) \<and>
         crumples (handleGameLoop rnd FIST p (run rnd' es initial)) = crumples (run rnd' es initial)"
proof -
  have "gestureHoldCounter (run rnd' es initial) = 0"
    using run_gate_counter [of initial rnd' es] assms by (simp add: initial_def)
  with assms show ?thesis
    by (simp add: hgl_fist_closed crumples_def)
qed

theorem closed_gate_fist_keeps_counter_witness:
  "\<not> canCrumple (run no_random (Drop [paper] # six_fists) initial) \<and>
   gestureHoldCounter (handleGameLoop no_random FIST 0 (run no_random (Drop [paper] # six_fists) initial))
     = gestureHoldCounter (run no_random (Drop [paper] # six_fists) initial) \<and>
   \<not> canCrumple (handleGameLoop no_random FIST 0 (run no_random (Drop [paper] # six_fists) initial)) \<and>
   crumples (handleGameLoop no_random FIST 0 (run no_random (Drop [paper] # six_fists) initial)) = 1"
proof -
  have closed: "\<not> canCrumple (run no_random (Drop [paper] # six_fists) initial)"
    unfolding six_fists_def by code_simp
  have one: "crumples (run no_random (Drop [paper] # six_fists) initial) = 1"
    unfolding six_fists_def by code_simp
  from closed_gate_fist_keeps_counter [OF closed, of no_random 0] closed one show ?thesis
    by simp
qed

subsection \<open>Loading a file\<close>

lemma onDrop_guard: "paperState s \<noteq> IDLE \<Longrightarrow> onDrop files s = log_call AudioInit s"
  by (simp add: onDrop_def Let_def log_call_def)

lemma onFileSelected_no_guard: "paperState (onFileSelected (file # files) s) = ACTIVE"
  by (simp add: onFileSelected_def handleFile_def set_paperState_def log_call_def)

text \<open>
  Claim C9. \<open>onDrop\<close> accepts a file only while the paper is \<open>IDLE\<close>, but
  \<open>onFileSelected\<close> has no such guard: with the file dialog opened while \<open>IDLE\<close> and the
  paper dropped and crumpled once before the selection arrives, the selection puts the
  paper back to \<open>ACTIVE\<close> under the new name, where a drop of the same file changes nothing.
\<close>

theorem file_selected_while_crumpled:
  "paperState (run no_random ([TriggerUpload, Drop [paper]] @ six_fists) initial) = CRUMPLED_1 \<and>
   paperState (onFileSelected [photo] (run no_random ([TriggerUpload, Drop [paper]] @ six_fists) initial)) = ACTIVE \<and>
   fileName (onFileSelected [photo] (run no_random ([TriggerUpload, Drop [paper]] @ six_fists) initial)) = ''cat.png'' \<and>
   paperState (onDrop [photo] (run no_random ([TriggerUpload, Drop [paper]] @ six_fists) initial)) = CRUMPLED_1"
  unfolding six_fists_def by code_simp

section \<open>Burning, timers and reset\<close>

lemma length_sparks_loop: "length (sparks_loop rnd k i acc) = length acc + (40 - i)"
proof (induction rnd k i acc rule: sparks_loop.induct)
  case (1 rnd k i newSparks)
  show ?case
  proof (cases "i < 40")
    case True
    with 1 show ?thesis by (subst sparks_loop.simps) simp
  next
    case False
    then show ?thesis by (subst sparks_loop.simps) simp
  qed
qed

lemma fire_frame:
  "clock (fire cb s) = clock s \<and> timers (fire cb s) = timers s"
  by (cases cb) (simp_all add: set_paperState_def log_call_def)

lemma fire_all_frame:
  "clock (foldl (\<lambda>s' tm. fire (snd tm) s') s tms) = clock s \<and>
   timers (foldl (\<lambda>s' tm. fire (snd tm) s') s tms) = timers s"
  by (induction tms arbitrary: s) (simp_all add: fire_frame)

lemma elapse_clock: "clock (elapse d s) = clock s + d"
  by (simp add: elapse_def Let_def fire_all_frame)

lemma elapse_timers:
  "timers (elapse d s) = filter (\<lambda>tm. \<not> is_due (clock s + d) tm) (timers s)"
  by (simp add: elapse_def Let_def fire_all_frame)

lemma no_burn_timer:
  "BurnDone \<notin> set (map snd tms) \<longleftrightarrow> (\<forall>tm\<in>set tms. snd tm \<noteq> BurnDone)"
  by force

text \<open>Timers other than the burn timer leave the paper state and the sparks alone.\<close>

lemma fire_all_no_burn:
  "\<forall>tm\<in>set tms. snd tm \<noteq> BurnDone \<Longrightarrow>
   paperState (foldl (\<lambda>s' tm. fire (snd tm) s') s tms) = paperState s \<and>
   sparks (foldl (\<lambda>s' tm. fire (snd tm) s') s tms) = sparks s"
proof (induction tms arbitrary: s)
  case Nil
  show ?case by simp
next
  case (Cons tm tms)
  then have "snd tm = ShakeOff" by (cases "snd tm") simp_all
  with Cons show ?case by simp
qed

text \<open>Once a burn timer has run, the paper is ashes and stays so under further timers.\<close>

lemma fire_all_burn:
  "(\<exists>tm\<in>set tms. snd tm = BurnDone) \<or> (paperState s = ASHES \<and> sparks s = []) \<Longrightarrow>
   paperState (foldl (\<lambda>s' tm. fire (snd tm) s') s tms) = ASHES \<and>
   sparks (foldl (\<lambda>s' tm. fire (snd tm) s') s tms) = []"
proof (induction tms arbitrary: s)
  case Nil
  then show ?case by simp
next
  case (Cons tm tms)
  show ?case
  proof (cases "snd tm")
    case ShakeOff
    with Cons.prems have "(\<exists>tm\<in>set tms. snd tm = BurnDone) \<or>
        (paperState (fire (snd tm) s) = ASHES \<and> sparks (fire (snd tm) s) = [])"
      by auto
    from Cons.IH [OF this] show ?thesis by simp
  next
    case BurnDone
    then have "paperState (fire (snd tm) s) = ASHES \<and> sparks (fire (snd tm) s) = []"
      by (simp add: set_paperState_def log_call_def)
    then have "(\<exists>tm\<in>set tms. snd tm = BurnDone) \<or>
        (paperState (fire (snd tm) s) = ASHES \<and> sparks (fire (snd tm) s) = [])"
      by simp
    from Cons.IH [OF this] show ?thesis by simp
  qed
qed

lemma elapse_no_burn:
  assumes "\<forall>tm\<in>set (timers s). snd tm = BurnDone \<longrightarrow> \<not> is_due (clock s + d) tm"
  shows "paperState (elapse d s) = paperState s \<and> sparks (elapse d s) = sparks s"
proof -
  from assms have "\<forall>tm\<in>set (sort_key fst (filter (is_due (clock s + d)) (timers s))). snd tm \<noteq> BurnDone"
    by auto
  from fire_all_no_burn [OF this] show ?thesis
    by (simp add: elapse_def Let_def)
qed

lemma elapse_burn:
  assumes "tm \<in> set (timers s)" and "snd tm = BurnDone" and "is_due (clock s + d) tm"
  shows "paperState (elapse d s) = ASHES \<and> sparks (elapse d s) = []"
proof -
  from assms have "tm \<in> set (sort_key fst (filter (is_due (clock s + d)) (timers s)))"
    by simp
  with assms(2) have "\<exists>tm\<in>set (sort_key fst (filter (is_due (clock s + d)) (timers s))). snd tm = BurnDone"
    by blast
  then show ?thesis
    using fire_all_burn [of "sort_key fst (filter (is_due (clock s + d)) (timers s))"]
    by (simp add: elapse_def Let_def)
qed

text \<open>What \<open>burnPaper\<close> does to a paper that is neither burning nor ashes.\<close>

lemma burnPaper_fresh:
  assumes "paperState s \<noteq> BURNING" and "paperState s \<noteq> ASHES"
  shows "paperState (burnPaper rnd s) = BURNING"
    and "length (sparks (burnPaper rnd s)) = 40"
    and "timers (burnPaper rnd s) = timers s @ [(clock s + 2500, BurnDone)]"
    and "clock (burnPaper rnd s) = clock s"
    and "calls (burnPaper rnd s) = calls s @ [BurnPaper, SetPaperState BURNING, PlayBurn]"
  using assms
  by (simp_all add: burnPaper_def Let_def log_call_def set_paperState_def setTimeout_def
      generateSparks_def length_sparks_loop)

lemma reset_frame:
  "paperState (reset s) = IDLE \<and> timers (reset s) = timers s \<and> clock (reset s) = clock s \<and> sparks (reset s) = []"
  by (simp add: reset_def set_paperState_def log_call_def)

lemma hgl_burn:
  assumes "paperState s = CRUMPLED_FINAL" and "0.15 < p"
  shows "handleGameLoop rnd OPEN_PALM p s = burnPaper rnd (s\<lparr>canCrumple := True, gestureHoldCounter := 0\<rparr>)"
  using assms by (simp add: handleGameLoop_def Let_def)

text \<open>
  Claim C4. With the paper \<open>CRUMPLED_FINAL\<close>, an \<open>OPEN_PALM\<close> sample of proximity above
  0.15 starts the burn: the state is \<open>BURNING\<close>, 40 sparks are there, and \<open>burnPaper\<close>
  ran once. When 2500 ms have passed with no other event the state is \<open>ASHES\<close> and the
  sparks are gone; before that (no older burn timer pending) the paper still burns.
\<close>

theorem burn_then_ashes:
  assumes "paperState s = CRUMPLED_FINAL" and "0.15 < p"
  shows "paperState (handleGameLoop rnd OPEN_PALM p s) = BURNING \<and>
         length (sparks (handleGameLoop rnd OPEN_PALM p s)) = 40 \<and>
         emitted s (handleGameLoop rnd OPEN_PALM p s) = [BurnPaper, SetPaperState BURNING, PlayBurn] \<and>
         paperState (elapse 2500 (handleGameLoop rnd OPEN_PALM p s)) = ASHES \<and>
         sparks (elapse 2500 (handleGameLoop rnd OPEN_PALM p s)) = [] \<and>
         (BurnDone \<notin> set (map snd (timers s)) \<longrightarrow>
            (\<forall>d<2500. paperState (elapse d (handleGameLoop rnd OPEN_PALM p s)) = BURNING \<and>
                       length (sparks (elapse d (handleGameLoop rnd OPEN_PALM p s))) = 40))"
proof -
  define s0 where "s0 = s\<lparr>canCrumple := True, gestureHoldCounter := 0\<rparr>"
  define s1 where "s1 = handleGameLoop rnd OPEN_PALM p s"
  have s1: "s1 = burnPaper rnd s0"
    unfolding s1_def s0_def using assms by (rule hgl_burn)
  have fresh: "paperState s0 \<noteq> BURNING" "paperState s0 \<noteq> ASHES"
    using assms by (simp_all add: s0_def)
  note b = burnPaper_fresh [OF fresh, of rnd, folded s1]
  have tm: "timers s1 = timers s @ [(clock s + 2500, BurnDone)]" and ck: "clock s1 = clock s"
    using b by (simp_all add: s0_def)
  have "emitted s s1 = [BurnPaper, SetPaperState BURNING, PlayBurn]"
    using b(5) by (simp add: emitted_def s0_def)
  moreover have "paperState (elapse 2500 s1) = ASHES \<and> sparks (elapse 2500 s1) = []"
    by (rule elapse_burn [of "(clock s + 2500, BurnDone)"]) (simp_all add: tm ck is_due_def)
  moreover have "paperState (elapse d s1) = BURNING \<and> length (sparks (elapse d s1)) = 40"
    if "BurnDone \<notin> set (map snd (timers s))" and "d < 2500" for d
  proof -
    from that have "\<forall>tm\<in>set (timers s1). snd tm = BurnDone \<longrightarrow> \<not> is_due (clock s1 + d) tm"
      unfolding no_burn_timer by (auto simp: tm ck is_due_def)
    from elapse_no_burn [OF this] b(1,2) show ?thesis by simp
  qed
  ultimately show ?thesis
    using b(1,2) unfolding s1_def by blast
qed


theorem burn_then_ashes_witness:
  "paperState (run no_random crumple_thrice initial) = CRUMPLED_FINAL \<and> (0.15 :: real) < 0.2 \<and>
   BurnDone \<notin> set (map snd (timers (run no_random crumple_thrice initial))) \<and>
   paperState (handleGameLoop no_random OPEN_PALM 0.2 (run no_random crumple_thrice initial)) = BURNING \<and>
   length (sparks (handleGameLoop no_random OPEN_PALM 0.2 (run no_random crumple_thrice initial))) = 40 \<and>
   paperState (elapse 2499 (handleGameLoop no_random OPEN_PALM 0.2 (run no_random crumple_thrice initial))) = BURNING \<and>
   paperState (elapse 2500 (handleGameLoop no_random OPEN_PALM 0.2 (run no_random crumple_thrice initial))) = ASHES \<and>
   sparks (elapse 2500 (handleGameLoop no_random OPEN_PALM 0.2 (run no_random crumple_thrice initial))) = []"
proof -
  have final: "paperState (run no_random crumple_thrice initial) = CRUMPLED_FINAL"
    unfolding crumple_thrice_def six_fists_def by code_simp
  have close: "(0.15 :: real) < 0.2"
    by simp
  have no_burn: "BurnDone \<notin> set (map snd (timers (run no_random crumple_thrice initial)))"
    unfolding crumple_thrice_def six_fists_def by code_simp
  from burn_then_ashes [OF final close, of no_random] final close no_burn show ?thesis
    by simp
qed

text \<open>
  Claim C1, amended. A reset while the paper burns (\<open>t\<close> ms into the burn, no timer of an
  earlier burn pending when it began) makes the state \<open>IDLE\<close> at once, but does not cancel
  the burn timer: with no other event the state stays \<open>IDLE\<close> only until 2500 ms have
  passed since the burn began, and is \<open>ASHES\<close> from then on.
\<close>

theorem reset_does_not_cancel_burn:
  assumes "paperState s \<noteq> BURNING" and "paperState s \<noteq> ASHES"
    and "BurnDone \<notin> set (map snd (timers s))" and "t < 2500"
  shows "paperState (elapse t (burnPaper rnd s)) = BURNING \<and>
         paperState (reset (elapse t (burnPaper rnd s))) = IDLE \<and>
         (\<forall>d. t + d < 2500 \<longrightarrow> paperState (elapse d (reset (elapse t (burnPaper rnd s)))) = IDLE) \<and>
         (\<forall>d. 2500 \<le> t + d \<longrightarrow> paperState (elapse d (reset (elapse t (burnPaper rnd s)))) = ASHES)"
proof -
  define s1 where "s1 = burnPaper rnd s"
  define s2 where "s2 = elapse t s1"
  define s3 where "s3 = reset s2"
  note b = burnPaper_fresh [OF assms(1,2), of rnd, folded s1_def]
  have burning: "paperState s2 = BURNING"
  proof -
    from assms(3,4) have "\<forall>tm\<in>set (timers s1). snd tm = BurnDone \<longrightarrow> \<not> is_due (clock s1 + t) tm"
      unfolding no_burn_timer by (auto simp: b is_due_def)
    from elapse_no_burn [OF this] b(1) show ?thesis by (simp add: s2_def)
  qed
  have ck: "clock s3 = clock s + t"
    by (simp add: s3_def s2_def reset_frame elapse_clock b)
  have tm: "timers s3 = filter (\<lambda>tm. \<not> is_due (clock s + t) tm) (timers s) @ [(clock s + 2500, BurnDone)]"
    using assms(4) by (simp add: s3_def s2_def reset_frame elapse_timers b is_due_def)
  have idle: "paperState s3 = IDLE"
    by (simp add: s3_def reset_frame)
  have stays: "paperState (elapse d s3) = IDLE" if "t + d < 2500" for d
  proof -
    from assms(3) that have "\<forall>tm\<in>set (timers s3). snd tm = BurnDone \<longrightarrow> \<not> is_due (clock s3 + d) tm"
      unfolding no_burn_timer by (auto simp: tm ck is_due_def)
    from elapse_no_burn [OF this] idle show ?thesis by simp
  qed
  have ashes: "paperState (elapse d s3) = ASHES" if "2500 \<le> t + d" for d
  proof -
    have "paperState (elapse d s3) = ASHES \<and> sparks (elapse d s3) = []"
      by (rule elapse_burn [of "(clock s + 2500, BurnDone)"]) (use that in \<open>simp_all add: tm ck is_due_def\<close>)
    then show ?thesis ..
  qed
  from burning idle stays ashes show ?thesis
    unfolding s3_def s2_def s1_def by blast
qed

theorem reset_does_not_cancel_burn_witness:
  "paperState (run no_random crumple_thrice initial) \<noteq> BURNING \<and>
   paperState (run no_random crumple_thrice initial) \<noteq> ASHES \<and>
   BurnDone \<notin> set (map snd (timers (run no_random crumple_thrice initial))) \<and>
   (1000 :: nat) < 2500 \<and> (1000 :: nat) + 1499 < 2500 \<and> (2500 :: nat) \<le> 1000 + 1500 \<and>
   paperState (reset (elapse 1000 (burnPaper no_random (run no_random crumple_thrice initial)))) = IDLE \<and>
   paperState (elapse 1499 (reset (elapse 1000 (burnPaper no_random (run no_random crumple_thrice initial))))) = IDLE \<and>
   paperState (elapse 1500 (reset (elapse 1000 (burnPaper no_random (run no_random crumple_thrice initial))))) = ASHES"
proof -
  have a: "paperState (run no_random crumple_thrice initial) \<noteq> BURNING"
    and b: "paperState (run no_random crumple_thrice initial) \<noteq> ASHES"
    and c: "BurnDone \<notin> set (map snd (timers (run no_random crumple_thrice initial)))"
    unfolding crumple_thrice_def six_fists_def by code_simp+
  have d: "(1000 :: nat) < 2500"
    by simp
  from reset_does_not_cancel_burn [OF a b c d, of no_random] a b c show ?thesis
    by simp
qed

text \<open>
  Claim C1 as stated fails: a reset 1000 ms into the burn gives \<open>IDLE\<close>, and 1500 ms later,
  with no file loaded, the state is \<open>ASHES\<close>.
\<close>

theorem reset_while_burning_counterexample:
  "paperState (run no_random (crumple_thrice @ [Frame OPEN_PALM 0.2, Elapse 1000]) initial) = BURNING \<and>
   paperState (run no_random (crumple_thrice @ [Frame OPEN_PALM 0.2, Elapse 1000, Reset]) initial) = IDLE \<and>
   paperState (run no_random (crumple_thrice @ [Frame OPEN_PALM 0.2, Elapse 1000, Reset, Elapse 1500]) initial) = ASHES"
  unfolding crumple_thrice_def six_fists_def by code_simp

section \<open>The gesture classifier\<close>

lemma dist_pt_Some: "dist_pt ar (Some a) (Some b) = Inr (dist_value ar a b)"
  by (simp add: dist_pt_def)

lemma dist_pt_None: "dist_pt ar None b = Inl TypeError" "dist_pt ar a None = Inl TypeError"
  by (simp_all add: dist_pt_def split: option.split)

lemma curl_loop_in_range:
  "0 < length lms \<Longrightarrow> \<forall>(tip, mcp)\<in>set fingers. tip < length lms \<and> mcp < length lms \<Longrightarrow>
   curl_loop ar lms fingers c = Inr (c + length (filter (curled ar lms) (map fst fingers)))"
proof (induction fingers arbitrary: c)
  case Nil
  show ?case by simp
next
  case (Cons f fingers)
  obtain tip mcp where f: "f = (tip, mcp)" by (cases f)
  with Cons.prems have "tip < length lms" "mcp < length lms" "tip - 2 < length lms"
    by auto
  with Cons f show ?case
    by (simp add: landmark_at_def dist_pt_Some curled_def)
qed

lemma curl_loop_out_of_range:
  "\<exists>(tip, mcp)\<in>set fingers. \<not> tip < length lms \<Longrightarrow> curl_loop ar lms fingers c = Inl TypeError"
proof (induction fingers arbitrary: c)
  case Nil
  then show ?case by simp
next
  case (Cons f fingers)
  obtain tip mcp where f: "f = (tip, mcp)" by (cases f)
  have err: "e = TypeError" for e :: js_error by (cases e)
  show ?case
  proof (cases "tip < length lms")
    case True
    with Cons.prems f have "\<exists>(tip, mcp)\<in>set fingers. \<not> tip < length lms" by auto
    then have "curl_loop ar lms fingers c' = Inl TypeError" for c'
      by (rule Cons.IH)
    then show ?thesis
      by (simp add: f Let_def err split: sum.split)
  next
    case False
    then show ?thesis
      by (simp add: f landmark_at_def dist_pt_None)
  qed
qed

lemma processGesture_ok:
  assumes "21 \<le> length lms"
  shows "processGesture ar lms gs =
    (None, gs\<lparr>handProximity := proximity_of ar lms, currentGesture := classify ar lms\<rparr>)"
proof -
  from assms have "curl_loop ar lms (zip [8, 12, 16, 20] [5, 9, 13, 17]) 0 =
      Inr (length (filter (curled ar lms) [8, 12, 16, 20]))"
    by (subst curl_loop_in_range) auto
  then show ?thesis
    by (simp add: processGesture_def classify_def Let_def)
qed

lemma processGesture_short:
  assumes "length lms < 21"
  shows "processGesture ar lms gs = (Some TypeError, gs\<lparr>handProximity := proximity_of ar lms\<rparr>)"
proof -
  from assms have "curl_loop ar lms (zip [8, 12, 16, 20] [5, 9, 13, 17]) 0 = Inl TypeError"
    by (intro curl_loop_out_of_range) simp
  then show ?thesis
    by (simp add: processGesture_def Let_def)
qed

subsection \<open>Rounding to a double\<close>

lemma floor_log2_bounds:
  assumes "0 < a" and "2 powi e \<le> a" and "a < 2 powi (e + 1)"
  shows "\<lfloor>log 2 a\<rfloor> = e"
proof -
  have lo: "2 powr (of_int e) = (2::real) powi e"
    by (simp add: powr_real_of_int')
  have "2 powr (of_int (e + 1)) = (2::real) powi (e + 1)"
    by (rule powr_real_of_int') simp_all
  then have hi: "2 powr (of_int e + 1) = (2::real) powi (e + 1)"
    by (simp add: add.commute)
  from assms show ?thesis
    by (subst floor_log_eq_powr_iff) (simp_all add: lo hi)
qed

text \<open>
  A positive \<open>x\<close> with \<open>2 ^ e \<le> x < 2 ^ (e + 1)\<close> rounds to the multiple of
  \<open>2 ^ (e - 52)\<close> that \<open>round_even\<close> picks.
\<close>

lemma rd_pos_eval:
  assumes "0 < x" and "2 powi e \<le> x" and "x < 2 powi (e + 1)" and "- 1022 \<le> e"
    and "round_even (x / 2 powi (e - 52)) = n" and "of_int n * 2 powi (e - 52) < (2::real) ^ 1024"
  shows "rd x = Num (of_int n * 2 powi (e - 52))"
proof -
  have "ulp_of x = 2 powi (e - 52)"
    using floor_log2_bounds [OF assms(1-3)] assms(4) by (simp add: ulp_of_def max_def)
  with assms(1,5,6) show ?thesis
    by (simp add: rd_def Let_def)
qed

lemma rd_zero: "rd 0 = Num 0"
  by (simp add: rd_def)

lemma rd_neg: "rd (- x) = js_neg (rd x)"
  by (simp add: rd_def Let_def)

lemma rd_one: "rd 1 = Num 1"
  using rd_pos_eval [of 1 0 "2 ^ 52"] by (simp add: power_int_minus round_even_def)

lemma rd_half: "rd (1 / 2) = Num (1 / 2)"
  using rd_pos_eval [of "1 / 2" "- 1" "2 ^ 52"] by (simp add: power_int_minus round_even_def)

lemma rd_quarter: "rd (1 / 4) = Num (1 / 4)"
  using rd_pos_eval [of "1 / 4" "- 2" "2 ^ 52"] by (simp add: power_int_minus round_even_def)

lemma rd_three_quarters: "rd (3 / 4) = Num (3 / 4)"
  using rd_pos_eval [of "3 / 4" "- 1" "3 * 2 ^ 51"] by (simp add: power_int_minus round_even_def)

lemma rd_sixteenth: "rd (1 / 16) = Num (1 / 16)"
  using rd_pos_eval [of "1 / 16" "- 4" "2 ^ 52"] by (simp add: power_int_minus round_even_def)

lemma rd_three_sixteenths: "rd (3 / 16) = Num (3 / 16)"
  using rd_pos_eval [of "3 / 16" "- 3" "3 * 2 ^ 51"] by (simp add: power_int_minus round_even_def)

lemma rd_tiny: "rd (1 / 2 ^ 30) = Num (1 / 2 ^ 30)"
  using rd_pos_eval [of "1 / 2 ^ 30" "- 30" "2 ^ 52"] by (simp add: power_int_minus round_even_def)

lemma rd_tiny_square: "rd (1 / 2 ^ 30 * (1 / 2 ^ 30)) = Num (1 / 2 ^ 60)"
  using rd_pos_eval [of "1 / 2 ^ 60" "- 60" "2 ^ 52"] by (simp add: power_int_minus round_even_def)

text \<open>The sum \<open>1/4 + 2\<^sup>-\<^sup>6\<^sup>0\<close> is no double: it rounds to \<open>1/4\<close>.\<close>

lemma rd_near_quarter: "rd (1 / 4 + 1 / 2 ^ 60) = Num (1 / 4)"
  using rd_pos_eval [of "1 / 4 + 1 / 2 ^ 60" "- 2" "2 ^ 52"]
  by (simp add: power_int_minus round_even_def)

text \<open>The literal 0.05 denotes the double \<open>3602879701896397 / 2\<^sup>5\<^sup>6\<close>, and 0.25 is a double.\<close>

lemma rd_lit_005: "rd 0.05 = Num (3602879701896397 / 2 ^ 56)"
  using rd_pos_eval [of "0.05" "- 5" "7205759403792794"]
  by (simp add: power_int_minus round_even_def)

lemma rd_lit_025: "rd 0.25 = Num (1 / 4)"
  using rd_quarter by simp

lemma js_less_irrefl: "\<not> js_less v v"
  by (cases v) simp_all

lemma sqrt_quarter: "sqrt (1 / 4) = 1 / 2"
  by (simp add: real_sqrt_divide)

lemma sqrt_sixteenth: "sqrt (1 / 16) = 1 / 4"
  using real_sqrt_abs [of "1 / 4"] by (simp add: power2_eq_square)

subsection \<open>The two hands in double arithmetic\<close>

lemma dist_fist_folded: "dist_value binary64 (pt (1/2) (3/4) 0) (pt (1/2) 1 0) = Num (1 / 4)"
  by (simp add: dist_value_def binary64_def pt_def js_sub_def rd_zero rd_neg rd_quarter
      rd_sixteenth sqrt_sixteenth)

lemma dist_fist_pip: "dist_value binary64 (pt (1/2) (1/2) 0) (pt (1/2) 1 0) = Num (1 / 2)"
  by (simp add: dist_value_def binary64_def pt_def js_sub_def rd_zero rd_neg rd_half rd_quarter
      sqrt_quarter)

lemma dist_fist_stretched: "dist_value binary64 (pt (1/2) 0 0) (pt (1/2) 1 0) = Num 1"
  by (simp add: dist_value_def binary64_def pt_def js_sub_def rd_zero rd_neg rd_one)

lemma classify_fist_hand: "classify binary64 fist_hand = FIST"
  by (simp add: classify_def curled_def fist_hand_def dist_fist_folded dist_fist_pip
      dist_fist_stretched) (simp add: binary64_def)

lemma classify_fist_hand_extra: "classify binary64 (fist_hand @ [pt 0 0 0]) = FIST"
  by (simp add: classify_def curled_def fist_hand_def dist_fist_folded dist_fist_pip
      dist_fist_stretched) (simp add: binary64_def)

text \<open>The proximity of the fist is the double nearest to 0.8.\<close>

lemma rd_area_fist: "rd (1 / 4 - 3602879701896397 / 2 ^ 56) = Num (3602879701896397 / 2 ^ 54)"
  using rd_pos_eval [of "1 / 4 - 3602879701896397 / 2 ^ 56" "- 3" "7205759403792794"]
  by (simp add: power_int_minus round_even_def)

lemma rd_scaled_fist: "rd (3602879701896397 / 2 ^ 54 / (1 / 4)) = Num (3602879701896397 / 2 ^ 52)"
  using rd_pos_eval [of "3602879701896397 / 2 ^ 52" "- 1" "7205759403792794"]
  by (simp add: power_int_minus round_even_def)

lemma proximity_fist_hand: "proximity_of binary64 fist_hand = Num (3602879701896397 / 2 ^ 52)"
  using rd_area_fist rd_scaled_fist
  by (simp add: proximity_of_def bbox_step_def fist_hand_def pt_def binary64_def js_sub_def
      rd_zero rd_one rd_quarter rd_lit_005 [simplified] rd_lit_025 [simplified])

text \<open>With a 22nd point at the origin the box is wider and the proximity is clamped to 1.\<close>

lemma rd_area_extra: "rd (1 / 2 - 3602879701896397 / 2 ^ 56) = Num (8106479329266893 / 2 ^ 54)"
  using rd_pos_eval [of "1 / 2 - 3602879701896397 / 2 ^ 56" "- 2" "8106479329266893"]
  by (simp add: power_int_minus round_even_def)

lemma rd_scaled_extra: "rd (8106479329266893 / 2 ^ 54 / (1 / 4)) = Num (8106479329266893 / 2 ^ 52)"
  using rd_pos_eval [of "8106479329266893 / 2 ^ 52" 0 "8106479329266893"]
  by (simp add: power_int_minus round_even_def)

lemma proximity_fist_hand_extra: "proximity_of binary64 (fist_hand @ [pt 0 0 0]) = Num 1"
  using rd_area_extra rd_scaled_extra
  by (simp add: proximity_of_def bbox_step_def fist_hand_def pt_def binary64_def js_sub_def
      rd_zero rd_one rd_half rd_lit_005 [simplified] rd_lit_025 [simplified])

text \<open>Without the pinky tip the box is lower, and the proximity is the double nearest to 0.55.\<close>

lemma rd_area_short: "rd (3 / 16 - 3602879701896397 / 2 ^ 56) = Num (2476979795053773 / 2 ^ 54)"
  using rd_pos_eval [of "3 / 16 - 3602879701896397 / 2 ^ 56" "- 3" "4953959590107546"]
  by (simp add: power_int_minus round_even_def)

lemma rd_scaled_short: "rd (2476979795053773 / 2 ^ 54 / (1 / 4)) = Num (2476979795053773 / 2 ^ 52)"
  using rd_pos_eval [of "2476979795053773 / 2 ^ 52" "- 1" "4953959590107546"]
  by (simp add: power_int_minus round_even_def)

lemma proximity_fist_hand_short:
  "proximity_of binary64 (butlast fist_hand) = Num (2476979795053773 / 2 ^ 52)"
  using rd_area_short rd_scaled_short
  by (simp add: proximity_of_def bbox_step_def fist_hand_def pt_def binary64_def js_sub_def
      rd_zero rd_one rd_quarter rd_three_quarters rd_three_sixteenths
      rd_lit_005 [simplified] rd_lit_025 [simplified])

text \<open>
  In \<open>near_tie_hand\<close> every difference, square and square root is exact; the one
  rounding is in the sum of squares for a PIP joint, \<open>1/4 + 2\<^sup>-\<^sup>6\<^sup>0\<close>, which rounds to the
  sum for its tip, \<open>1/4\<close>: the two computed distances are the same number.
\<close>

lemma dist_near_tie_tip: "dist_value binary64 (pt (1/2) 0 0) (pt 0 0 0) = Num (1 / 2)"
  by (simp add: dist_value_def binary64_def pt_def js_sub_def rd_zero rd_half rd_quarter
      sqrt_quarter)

lemma dist_near_tie_pip:
  "dist_value binary64 (pt (1/2) (1 / 2 ^ 30) 0) (pt 0 0 0) = Num (1 / 2)"
  using rd_tiny rd_tiny_square rd_near_quarter
  by (simp add: dist_value_def binary64_def pt_def js_sub_def rd_zero rd_half rd_quarter
      sqrt_quarter)

lemma classify_near_tie: "classify binary64 near_tie_hand = OPEN_PALM"
  by (simp add: classify_def curled_def near_tie_hand_def dist_near_tie_tip
      dist_near_tie_pip [simplified])
     (simp add: binary64_def)

lemma curled_spec_near_tie: "filter (curled_spec near_tie_hand) [8, 12, 16, 20] = [8, 12, 16, 20]"
  by (simp add: curled_spec_def euclid_spec_def near_tie_hand_def pt_def real_of_def
      power2_eq_square)

text \<open>
  Claim C5, amended. On a set of 21 landmarks \<open>processGesture\<close> throws nothing and sets the
  gesture that the number \<open>c\<close> of curled fingers among index, middle, ring and pinky gives:
  \<open>FIST\<close> for \<open>c \<ge> 3\<close>, \<open>OPEN_PALM\<close> for \<open>c = 0\<close>, \<open>NONE\<close> otherwise, where a finger is
  curled exactly when the distance from its tip to the wrist as \<open>dist\<close> computes it in the
  arithmetic of the run time is less than the computed distance from its PIP joint to the
  wrist. This holds for every arithmetic.
\<close>

theorem classify_by_computed_distances:
  assumes "length lms = 21"
  shows "processGesture ar lms gs =
    (None, gs\<lparr>handProximity := proximity_of ar lms, currentGesture := classify ar lms\<rparr>)"
  using assms by (simp add: processGesture_ok)

theorem classify_by_computed_distances_witness:
  "length fist_hand = 21 \<and>
   processGesture binary64 fist_hand service_initial =
     (None, \<lparr>currentGesture = FIST, handProximity = Num (3602879701896397 / 2 ^ 52)\<rparr>)"
proof -
  have len: "length fist_hand = 21"
    by (simp add: fist_hand_def)
  from classify_by_computed_distances [OF len, of binary64 service_initial] len show ?thesis
    by (simp add: classify_fist_hand proximity_fist_hand service_initial_def)
qed

text \<open>
  Claim C5 as stated, with the exact Euclidean distances, fails in double arithmetic: in
  \<open>near_tie_hand\<close> (21 points) each of the four tips is strictly nearer to the wrist than
  its PIP joint, so the claim counts four curled fingers and gives \<open>FIST\<close>, but the code
  computes equal distances, counts none and sets \<open>OPEN_PALM\<close>.
\<close>

theorem euclidean_curl_counterexample:
  "length near_tie_hand = 21 \<and>
   filter (curled_spec near_tie_hand) [8, 12, 16, 20] = [8, 12, 16, 20] \<and>
   classify_spec near_tie_hand = FIST \<and>
   fst (processGesture binary64 near_tie_hand service_initial) = None \<and>
   currentGesture (snd (processGesture binary64 near_tie_hand service_initial)) = OPEN_PALM"
proof -
  have len: "length near_tie_hand = 21"
    by (simp add: near_tie_hand_def)
  have code: "processGesture binary64 near_tie_hand service_initial =
      (None, service_initial\<lparr>handProximity := proximity_of binary64 near_tie_hand,
                                 currentGesture := OPEN_PALM\<rparr>)"
    using processGesture_ok [of near_tie_hand binary64 service_initial] len
    by (simp add: classify_near_tie)
  have spec: "classify_spec near_tie_hand = FIST"
    unfolding classify_spec_def curled_spec_near_tie by simp
  show ?thesis
  proof (intro conjI)
    show "length near_tie_hand = 21"
      by (rule len)
    show "filter (curled_spec near_tie_hand) [8, 12, 16, 20] = [8, 12, 16, 20]"
      by (rule curled_spec_near_tie)
    show "classify_spec near_tie_hand = FIST"
      by (rule spec)
    show "fst (processGesture binary64 near_tie_hand service_initial) = None"
      by (simp add: code)
    show "currentGesture (snd (processGesture binary64 near_tie_hand service_initial)) = OPEN_PALM"
      by (simp add: code)
  qed
qed

text \<open>
  Claim C6, amended. On fewer than 21 landmarks \<open>processGesture\<close> throws a \<open>TypeError\<close>
  and sets no gesture, the proximity signal being set already; on 21 landmarks or more it
  throws nothing and classifies from the points at the indices 0 to 20. This holds for
  every arithmetic.
\<close>

theorem processGesture_by_length:
  "processGesture ar lms gs =
     (if length lms < 21
      then (Some TypeError, gs\<lparr>handProximity := proximity_of ar lms\<rparr>)
      else (None, gs\<lparr>handProximity := proximity_of ar lms, currentGesture := classify ar lms\<rparr>))"
  by (simp add: processGesture_ok processGesture_short)

theorem processGesture_by_length_witness:
  "length (butlast fist_hand) = 20 \<and>
   processGesture binary64 (butlast fist_hand) service_initial =
     (Some TypeError, \<lparr>currentGesture = NONE, handProximity = Num (2476979795053773 / 2 ^ 52)\<rparr>) \<and>
   length (fist_hand @ [pt 0 0 0]) = 22 \<and>
   processGesture binary64 (fist_hand @ [pt 0 0 0]) service_initial =
     (None, \<lparr>currentGesture = FIST, handProximity = Num 1\<rparr>)"
  using processGesture_by_length [of binary64 "butlast fist_hand" service_initial]
    processGesture_by_length [of binary64 "fist_hand @ [pt 0 0 0]" service_initial]
  by (simp add: classify_fist_hand_extra proximity_fist_hand_extra proximity_fist_hand_short
      service_initial_def) (simp add: fist_hand_def)

text \<open>
  Claim C6 as stated fails on 22 landmarks: the call throws nothing and sets \<open>FIST\<close>.
\<close>

theorem too_many_landmarks_counterexample:
  "length (fist_hand @ [pt 0 0 0]) = 22 \<and>
   fst (processGesture binary64 (fist_hand @ [pt 0 0 0]) service_initial) = None \<and>
   currentGesture (snd (processGesture binary64 (fist_hand @ [pt 0 0 0]) service_initial)) = FIST"
proof -
  have "21 \<le> length (fist_hand @ [pt 0 0 0])"
    by (simp add: fist_hand_def)
  from processGesture_ok [OF this, of binary64 service_initial] show ?thesis
    by (simp add: classify_fist_hand_extra) (simp add: fist_hand_def)
qed

end
